theory Spec2Isabelle
  imports Complex_Main "HOL-Library.Word"
begin

section \<open>Platform values used by the download function\<close>

text \<open>
  The development follows \<^verbatim>\<open>functions/api/download.js\<close>. The handler
  \<^verbatim>\<open>onRequestGet\<close> reads the query parameter \<^verbatim>\<open>size\<close>, validates it, and
  answers with a \<^verbatim>\<open>ReadableStream\<close> whose \<^verbatim>\<open>pull\<close> callback produces the
  body chunk by chunk.

  JavaScript numbers are modelled as \<^typ>\<open>int\<close>: every number the handler computes
  with is an integer of magnitude below \<open>2^53\<close> once it has passed the range check, and
  the only number that has not (the result of \<^verbatim>\<open>parseInt\<close>) is used in
  comparisons only, which rounding to a double does not change for bounds this small.
  \<^verbatim>\<open>NaN\<close> is \<open>None\<close>. A string is a list of code units; \<^typ>\<open>char\<close> covers the
  code units up to \<open>0xFF\<close>.
\<close>

type_synonym byte = "8 word"

datatype jserror =
    TypeError
  | RangeError
  | QuotaExceededError
  | SourceError string

subsection \<open>\<^verbatim>\<open>parseInt(string, 10)\<close>\<close>

text \<open>
  ECMAScript \<^verbatim>\<open>parseInt\<close> with radix 10: leading white space is skipped, one sign is
  read, then the longest prefix of decimal digits; with no digit the result is
  \<^verbatim>\<open>NaN\<close>. Whatever follows the digits is ignored. Of the code units up to \<open>0xFF\<close>
  the white space and line terminators are 9 to 13, 32 and 160.
\<close>

definition isStrWhiteSpaceChar :: "char \<Rightarrow> bool" where
  "isStrWhiteSpaceChar c = ((of_char c :: nat) \<in> {9, 10, 11, 12, 13, 32, 160})"

definition isDecimalDigit :: "char \<Rightarrow> bool" where
  "isDecimalDigit c = (48 \<le> (of_char c :: nat) \<and> (of_char c :: nat) \<le> 57)"

definition digitValue :: "char \<Rightarrow> int" where
  "digitValue c = int (of_char c) - 48"

definition mathInt :: "string \<Rightarrow> int" where
  "mathInt Z = foldl (\<lambda>a c. 10 * a + digitValue c) 0 Z"

definition parseInt :: "string \<Rightarrow> int option" where
  "parseInt inputString =
     (let S = dropWhile isStrWhiteSpaceChar inputString;
          sign = (if S \<noteq> [] \<and> hd S = CHR ''-'' then - 1 else 1);
          S1 = (if S \<noteq> [] \<and> (hd S = CHR ''+'' \<or> hd S = CHR ''-'') then tl S else S);
          Z = takeWhile isDecimalDigit S1
      in if Z = [] then None else Some (sign * mathInt Z))"

subsection \<open>\<^verbatim>\<open>Number.prototype.toString\<close> on integers\<close>

text \<open>
  The decimal digits of an integer, with a minus sign for a negative one, as
  \<^verbatim>\<open>toString\<close> gives them for every integer below \<open>10^21\<close>. \<open>digitChar\<close> is applied
  to numbers below ten only.
\<close>

definition digitChar :: "nat \<Rightarrow> char" where
  "digitChar d = ''0123456789'' ! d"

fun decimal :: "nat \<Rightarrow> string" where
  "decimal n = (if n < 10 then [digitChar n] else decimal (n div 10) @ [digitChar (n mod 10)])"

declare decimal.simps [simp del]

definition Number_toString :: "int \<Rightarrow> string" where
  "Number_toString n = (if n < 0 then CHR ''-'' # decimal (nat (- n)) else decimal (nat n))"

section \<open>Size validation in \<^verbatim>\<open>onRequestGet\<close>\<close>

definition DEFAULT_FILE_SIZE_BYTES :: int where
  "DEFAULT_FILE_SIZE_BYTES = 10 * 1024 * 1024"

definition MIN_FILE_SIZE_BYTES :: int where
  "MIN_FILE_SIZE_BYTES = 1 * 1024"

definition MAX_FILE_SIZE_BYTES :: int where
  "MAX_FILE_SIZE_BYTES = 250 * 1024 * 1024"

datatype log_entry =
    InvalidSizeParameter string
  | ChunkFailure jserror
  | StreamCancelled

text \<open>
  \<^verbatim>\<open>requestedSize\<close> is what \<^verbatim>\<open>url.searchParams.get('size')\<close> returned:
  \<^verbatim>\<open>null\<close> (\<open>None\<close>) when the parameter is absent, its string value otherwise.
  \<^verbatim>\<open>if (requestedSize)\<close> is the truthiness test: \<^verbatim>\<open>null\<close> and the empty string
  are falsy. The result is the value of \<^verbatim>\<open>fileSize\<close> after the block and the
  lines written to the console.
\<close>

definition resolveFileSize :: "string option \<Rightarrow> int \<times> log_entry list" where
  "resolveFileSize requestedSize =
     (case requestedSize of
        None \<Rightarrow> (DEFAULT_FILE_SIZE_BYTES, [])
      | Some s \<Rightarrow>
          if s = [] then (DEFAULT_FILE_SIZE_BYTES, [])
          else
            (case parseInt s of
               None \<Rightarrow> (DEFAULT_FILE_SIZE_BYTES, [InvalidSizeParameter s])
             | Some parsedSize \<Rightarrow>
                 if parsedSize \<ge> MIN_FILE_SIZE_BYTES \<and> parsedSize \<le> MAX_FILE_SIZE_BYTES
                 then (parsedSize, [])
                 else (DEFAULT_FILE_SIZE_BYTES, [InvalidSizeParameter s])))"

definition fileSize_of :: "string option \<Rightarrow> int" where
  "fileSize_of requestedSize = fst (resolveFileSize requestedSize)"

text \<open>
  The size validator in the words of the specification, for comparison with the code:
  parse as an integer; if parsing fails or the result is not within the bounds, use the
  default; otherwise use the parsed value. An absent value gives the default.
\<close>

definition spec_resolvedSize :: "string option \<Rightarrow> int" where
  "spec_resolvedSize raw =
     (case raw of
        None \<Rightarrow> DEFAULT_FILE_SIZE_BYTES
      | Some s \<Rightarrow>
          (case parseInt s of
             None \<Rightarrow> DEFAULT_FILE_SIZE_BYTES
           | Some n \<Rightarrow>
               if MIN_FILE_SIZE_BYTES \<le> n \<and> n \<le> MAX_FILE_SIZE_BYTES then n
               else DEFAULT_FILE_SIZE_BYTES))"

section \<open>The stream and its controller\<close>

text \<open>
  The state one response's stream production owns: the closure variables
  \<^verbatim>\<open>fileSize\<close> (fixed after validation) and \<^verbatim>\<open>bytesSent\<close>, the state of the
  \<^verbatim>\<open>ReadableStream\<close>, every chunk handed to \<^verbatim>\<open>controller.enqueue\<close> so far
  (oldest first), the state of the process-wide random source, and the console.

  \<open>Streaming\<close> is the stream standard's "readable". \<open>Cancelled\<close> is its "closed"
  reached through \<^verbatim>\<open>cancel\<close> rather than through \<^verbatim>\<open>controller.close()\<close>; the
  controller treats both alike.
\<close>

datatype stream_state = Streaming | Closed | Errored jserror | Cancelled

record 'e download_stream =
  fileSize :: int
  bytesSent :: int
  state :: stream_state
  emitted :: "byte list list"
  entropy :: 'e
  console :: "log_entry list"

text \<open>
  The controller's methods. \<^verbatim>\<open>close\<close> and \<^verbatim>\<open>enqueue\<close> throw a
  \<^verbatim>\<open>TypeError\<close> on a stream that is no longer readable; \<^verbatim>\<open>error\<close> does nothing
  there.
\<close>

definition controller_close :: "'e download_stream \<Rightarrow> jserror + 'e download_stream" where
  "controller_close st =
     (if state st = Streaming then Inr (st\<lparr>state := Closed\<rparr>) else Inl TypeError)"

definition controller_enqueue ::
  "byte list \<Rightarrow> 'e download_stream \<Rightarrow> jserror + 'e download_stream" where
  "controller_enqueue chunk st =
     (if state st = Streaming then Inr (st\<lparr>emitted := emitted st @ [chunk]\<rparr>)
      else Inl TypeError)"

definition controller_error :: "jserror \<Rightarrow> 'e download_stream \<Rightarrow> 'e download_stream" where
  "controller_error err st =
     (if state st = Streaming then st\<lparr>state := Errored err\<rparr> else st)"

subsection \<open>The chunk generator\<close>

text \<open>
  The random source is injected: asked to fill \<open>n\<close> bytes in state \<open>e\<close>, it fails or
  gives the byte for each index and its next state.
  \<^verbatim>\<open>new Uint8Array(size)\<close> allocates that many zero bytes and throws a
  \<^verbatim>\<open>RangeError\<close> on a negative length; \<^verbatim>\<open>crypto.getRandomValues\<close> overwrites every
  element of the buffer it is given and throws a \<^verbatim>\<open>QuotaExceededError\<close> on more than
  65536 bytes. (A platform also refuses to allocate a buffer beyond its own limit;
  \<^verbatim>\<open>pull\<close> never asks for more than 65536 bytes.)
\<close>

type_synonym 'e random_source = "'e \<Rightarrow> nat \<Rightarrow> jserror + ((nat \<Rightarrow> byte) \<times> 'e)"

definition new_Uint8Array :: "int \<Rightarrow> jserror + byte list" where
  "new_Uint8Array len = (if len < 0 then Inl RangeError else Inr (replicate (nat len) 0))"

definition crypto_getRandomValues ::
  "'e random_source \<Rightarrow> byte list \<Rightarrow> 'e \<Rightarrow> jserror + (byte list \<times> 'e)" where
  "crypto_getRandomValues src buffer e =
     (if length buffer > 65536 then Inl QuotaExceededError
      else
        (case src e (length buffer) of
           Inl err \<Rightarrow> Inl err
         | Inr (f, e') \<Rightarrow> Inr (map f [0..<length buffer], e')))"

definition generateRandomChunk ::
  "'e random_source \<Rightarrow> int \<Rightarrow> 'e \<Rightarrow> jserror + (byte list \<times> 'e)" where
  "generateRandomChunk src len e =
     (case new_Uint8Array len of
        Inl err \<Rightarrow> Inl err
      | Inr buffer \<Rightarrow> crypto_getRandomValues src buffer e)"

subsection \<open>\<^verbatim>\<open>pull\<close> and \<^verbatim>\<open>cancel\<close>\<close>

definition chunkSize :: int where
  "chunkSize = 64 * 1024"

text \<open>
  One call of \<^verbatim>\<open>pull(controller)\<close>. The \<^verbatim>\<open>try\<close> block covers generation,
  \<^verbatim>\<open>enqueue\<close> and the update of \<^verbatim>\<open>bytesSent\<close>; its \<^verbatim>\<open>catch\<close> logs and calls
  \<^verbatim>\<open>controller.error\<close>. An exception of \<^verbatim>\<open>controller.close()\<close> is outside the
  \<^verbatim>\<open>try\<close>: it rejects the promise \<^verbatim>\<open>pull\<close> returns, which the stream answers by
  erroring itself.
\<close>

definition pull :: "'e random_source \<Rightarrow> 'e download_stream \<Rightarrow> 'e download_stream" where
  "pull src st =
     (if bytesSent st \<ge> fileSize st then
        (case controller_close st of
           Inr st' \<Rightarrow> st'
         | Inl err \<Rightarrow> controller_error err st)
      else
        (let bytesRemaining = fileSize st - bytesSent st;
             currentChunkSize = min chunkSize bytesRemaining
         in case generateRandomChunk src currentChunkSize (entropy st) of
              Inl err \<Rightarrow>
                controller_error err (st\<lparr>console := console st @ [ChunkFailure err]\<rparr>)
            | Inr (chunk, e') \<Rightarrow>
                (case controller_enqueue chunk (st\<lparr>entropy := e'\<rparr>) of
                   Inl err \<Rightarrow>
                     controller_error err
                       (st\<lparr>entropy := e', console := console st @ [ChunkFailure err]\<rparr>)
                 | Inr st' \<Rightarrow> st'\<lparr>bytesSent := bytesSent st' + currentChunkSize\<rparr>)))"

definition cancel :: "'e download_stream \<Rightarrow> 'e download_stream" where
  "cancel st = st\<lparr>console := console st @ [StreamCancelled]\<rparr>"

text \<open>
  What the platform does with the two callbacks. It calls \<^verbatim>\<open>pull\<close> only while the
  stream is readable, one call at a time (the callback contains no \<^verbatim>\<open>await\<close>, so
  each call runs to its end). A cancellation by the consumer first closes the stream
  and then calls \<^verbatim>\<open>cancel\<close>.
\<close>

inductive stream_step ::
  "'e random_source \<Rightarrow> 'e download_stream \<Rightarrow> 'e download_stream \<Rightarrow> bool"
  for src :: "'e random_source" where
    step_pull: "state st = Streaming \<Longrightarrow> stream_step src st (pull src st)"
  | step_cancel: "state st = Streaming \<Longrightarrow> stream_step src st (cancel (st\<lparr>state := Cancelled\<rparr>))"

text \<open>
  A consumer that reads to the end: \<^verbatim>\<open>pull\<close> is called until the stream leaves
  \<open>Streaming\<close>. Every call on a readable stream lowers \<open>pulls_left\<close>, so reading
  always ends.
\<close>

definition pulls_left :: "'e download_stream \<Rightarrow> nat" where
  "pulls_left st =
     (if state st = Streaming then Suc (nat (fileSize st - bytesSent st)) else 0)"

function drain :: "'e random_source \<Rightarrow> 'e download_stream \<Rightarrow> 'e download_stream" where
  "drain src st = (if state st = Streaming then drain src (pull src st) else st)"
  by pat_completeness auto
termination
  by (relation "measure (\<lambda>(src, st). pulls_left st)")
     (auto simp: pulls_left_def pull_def controller_close_def controller_enqueue_def
        controller_error_def chunkSize_def Let_def
        split: sum.splits prod.splits if_splits)

declare drain.simps [simp del]

definition bytesEmitted :: "'e download_stream \<Rightarrow> int" where
  "bytesEmitted st = int (sum_list (map length (emitted st)))"

text \<open>A random source that never fails on a request the platform accepts.\<close>

definition reliable :: "'e random_source \<Rightarrow> bool" where
  "reliable src = (\<forall>e n. n \<le> 65536 \<longrightarrow> (\<exists>f e'. src e n = Inr (f, e')))"

text \<open>
  The cursor invariant, with the shape of the chunks emitted so far: while bytes remain
  to be sent, every chunk emitted is a full one.
\<close>

definition cursor_inv :: "'e download_stream \<Rightarrow> bool" where
  "cursor_inv st =
     (0 \<le> bytesSent st \<and> bytesSent st \<le> fileSize st \<and> bytesEmitted st = bytesSent st \<and>
      (state st = Closed \<longrightarrow> bytesSent st = fileSize st) \<and>
      (\<forall>c \<in> set (emitted st). 0 < length c \<and> int (length c) \<le> chunkSize) \<and>
      (\<forall>c \<in> set (butlast (emitted st)). int (length c) = chunkSize) \<and>
      (bytesSent st < fileSize st \<longrightarrow> (\<forall>c \<in> set (emitted st). int (length c) = chunkSize)))"

section \<open>Responses and the two handlers\<close>

record 'e response =
  status :: nat
  headers :: "(string \<times> string) list"
  body :: "'e download_stream option"

text \<open>
  \<^verbatim>\<open>new Response(body, { status, headers })\<close>: a missing \<^verbatim>\<open>status\<close> is 200, a status
  outside 200..599 is a \<^verbatim>\<open>RangeError\<close>, and a body with a null-body status is a
  \<^verbatim>\<open>TypeError\<close>.
\<close>

definition new_Response ::
  "'e download_stream option \<Rightarrow> nat option \<Rightarrow> (string \<times> string) list \<Rightarrow> jserror + 'e response" where
  "new_Response b init_status init_headers =
     (let s = (case init_status of None \<Rightarrow> 200 | Some n \<Rightarrow> n)
      in if s < 200 \<or> 599 < s then Inl RangeError
         else if b \<noteq> None \<and> s \<in> {204, 205, 304} then Inl TypeError
         else Inr \<lparr>status = s, headers = init_headers, body = b\<rparr>)"

definition new_ReadableStream :: "int \<Rightarrow> 'e \<Rightarrow> log_entry list \<Rightarrow> 'e download_stream" where
  "new_ReadableStream fs e logged =
     \<lparr>fileSize = fs, bytesSent = 0, state = Streaming, emitted = [], entropy = e,
      console = logged\<rparr>"

definition onRequestGet :: "string option \<Rightarrow> 'e \<Rightarrow> jserror + 'e response" where
  "onRequestGet requestedSize e =
     (let resolved = resolveFileSize requestedSize;
          corsHeaders =
            [(''Access-Control-Allow-Origin'', ''*''),
             (''Access-Control-Allow-Methods'', ''GET, OPTIONS''),
             (''Access-Control-Allow-Headers'', ''Content-Type'')];
          stream = new_ReadableStream (fst resolved) e (snd resolved)
      in new_Response (Some stream) (Some 200)
           (corsHeaders @
            [(''Content-Type'', ''application/octet-stream''),
             (''Content-Length'', Number_toString (fst resolved)),
             (''Cache-Control'', ''no-store, no-cache, must-revalidate, max-age=0''),
             (''Pragma'', ''no-cache'')]))"

definition download_stream_of :: "string option \<Rightarrow> 'e \<Rightarrow> 'e download_stream" where
  "download_stream_of requestedSize e =
     new_ReadableStream (fileSize_of requestedSize) e (snd (resolveFileSize requestedSize))"

definition onRequestOptions :: "jserror + 'e response" where
  "onRequestOptions =
     (let corsHeaders =
            [(''Access-Control-Allow-Origin'', ''*''),
             (''Access-Control-Allow-Methods'', ''GET, POST, OPTIONS''),
             (''Access-Control-Allow-Headers'', ''Content-Type, Range'')]
      in new_Response None (Some 204) corsHeaders)"

section \<open>The earlier copies of the download function\<close>

text \<open>
  The repository holds further copies of \<^verbatim>\<open>functions/api/download.js\<close>. Two of their
  functions differ from the ones above in what they produce; both are in the copy
  with the fixed file size, which ignores the request.

  Its \<^verbatim>\<open>onRequestOptions\<close> (the copy that reads \<^verbatim>\<open>size\<close> from the raw parameter has
  the same text) passes no \<^verbatim>\<open>status\<close>.
\<close>

definition onRequestOptions_part_002 :: "jserror + 'e response" where
  "onRequestOptions_part_002 =
     (let corsHeaders =
            [(''Access-Control-Allow-Origin'', ''*''),
             (''Access-Control-Allow-Methods'', ''GET, POST, OPTIONS''),
             (''Access-Control-Allow-Headers'', ''Content-Type'')]
      in new_Response None None corsHeaders)"

text \<open>
  Its \<^verbatim>\<open>pull\<close> allocates the chunk and fills it in a loop,
  \<^verbatim>\<open>for (let i = 0; i < bytesToSend; i++) chunk[i] = 97\<close>; it has no \<^verbatim>\<open>try\<close>, so an
  exception leaves \<^verbatim>\<open>pull\<close> and the stream errors itself.
\<close>

function fill_loop_part_002 :: "int \<Rightarrow> int \<Rightarrow> byte list \<Rightarrow> byte list" where
  "fill_loop_part_002 i bytesToSend chunk =
     (if i < bytesToSend then fill_loop_part_002 (i + 1) bytesToSend (chunk[nat i := 97])
      else chunk)"
  by pat_completeness auto
termination
  by (relation "measure (\<lambda>(i, bytesToSend, chunk). nat (bytesToSend - i))") auto

declare fill_loop_part_002.simps [simp del]

definition pull_part_002 :: "unit download_stream \<Rightarrow> unit download_stream" where
  "pull_part_002 st =
     (if bytesSent st \<ge> fileSize st then
        (case controller_close st of
           Inr st' \<Rightarrow> st'
         | Inl err \<Rightarrow> controller_error err st)
      else
        (let bytesToSend = min chunkSize (fileSize st - bytesSent st)
         in case new_Uint8Array bytesToSend of
              Inl err \<Rightarrow> controller_error err st
            | Inr buffer \<Rightarrow>
                (let chunk = fill_loop_part_002 0 bytesToSend buffer
                 in case controller_enqueue chunk st of
                      Inl err \<Rightarrow> controller_error err st
                    | Inr st' \<Rightarrow> st'\<lparr>bytesSent := bytesSent st' + bytesToSend\<rparr>)))"

definition onRequestGet_part_002 :: "jserror + unit response" where
  "onRequestGet_part_002 =
     (let fs = 10 * 1024 * 1024;
          corsHeaders =
            [(''Access-Control-Allow-Origin'', ''*''),
             (''Access-Control-Allow-Methods'', ''GET, OPTIONS''),
             (''Access-Control-Allow-Headers'', ''Content-Type'')];
          readableStream = new_ReadableStream fs () []
      in new_Response (Some readableStream) (Some 200)
           (corsHeaders @
            [(''Content-Type'', ''application/octet-stream''),
             (''Content-Length'', Number_toString fs),
             (''Cache-Control'', ''no-store, no-cache, must-revalidate, max-age=0''),
             (''Pragma'', ''no-cache'')]))"

section \<open>Callbacks invoked in any order\<close>




definition platform_cancel :: "'e download_stream \<Rightarrow> 'e download_stream" where
  "platform_cancel st = cancel (st\<lparr>state := Cancelled\<rparr>)"

text \<open>Two sources to run the stream on: one that counts, one that always fails.\<close>

definition counting_source :: "nat random_source" where
  "counting_source e n = Inr (\<lambda>i. of_nat (e + i), e + n)"

definition failing_source :: "unit random_source" where
  "failing_source e n = Inl (SourceError ''unavailable'')"

section \<open>Facts about the validator\<close>


lemmas consts_defs = DEFAULT_FILE_SIZE_BYTES_def MIN_FILE_SIZE_BYTES_def MAX_FILE_SIZE_BYTES_def
lemmas parse_defs = parseInt_def isStrWhiteSpaceChar_def isDecimalDigit_def mathInt_def digitValue_def

lemma fileSize_of_bounds:
  "MIN_FILE_SIZE_BYTES \<le> fileSize_of r \<and> fileSize_of r \<le> MAX_FILE_SIZE_BYTES"
  by (simp add: fileSize_of_def resolveFileSize_def DEFAULT_FILE_SIZE_BYTES_def
      MIN_FILE_SIZE_BYTES_def MAX_FILE_SIZE_BYTES_def split: option.split)

lemma parseInt_empty: "parseInt [] = None"
  by (simp add: parseInt_def)

lemma fileSize_of_spec: "fileSize_of raw = spec_resolvedSize raw"
  by (simp add: fileSize_of_def resolveFileSize_def spec_resolvedSize_def parseInt_empty
      split: option.split)

lemma digit_not_space: "isDecimalDigit c \<Longrightarrow> \<not> isStrWhiteSpaceChar c"
  by (auto simp: isDecimalDigit_def isStrWhiteSpaceChar_def)

lemma digit_not_sign: "isDecimalDigit c \<Longrightarrow> c \<noteq> CHR ''+'' \<and> c \<noteq> CHR ''-''"
  by (auto simp: isDecimalDigit_def)

lemma parseInt_digits_prefix:
  assumes "ds \<noteq> []" "\<forall>c \<in> set ds. isDecimalDigit c" "rest = [] \<or> \<not> isDecimalDigit (hd rest)"
  shows "parseInt (ds @ rest) = Some (mathInt ds)"
proof -
  from assms(1) obtain d ds' where ds: "ds = d # ds'" by (cases ds) auto
  with assms(2) have d: "isDecimalDigit d" by simp
  have tw: "takeWhile isDecimalDigit (ds @ rest) = ds"
  proof -
    have "takeWhile isDecimalDigit rest = []"
      using assms(3) by (cases rest) auto
    with assms(2) show ?thesis by (simp add: takeWhile_append2)
  qed
  have dw: "dropWhile isStrWhiteSpaceChar (ds @ rest) = ds @ rest"
    using d by (simp add: ds digit_not_space)
  have hd: "hd (ds @ rest) \<noteq> CHR ''+''" "hd (ds @ rest) \<noteq> CHR ''-''"
    using digit_not_sign[OF d] by (simp_all add: ds)
  show ?thesis
    unfolding parseInt_def dw Let_def using hd tw assms(1) by simp
qed

lemma digitChar_digit: "d < 10 \<Longrightarrow> isDecimalDigit (digitChar d) \<and> digitValue (digitChar d) = int d"
proof -
  assume "d < 10"
  then have "d \<in> {0, 1, 2, 3, 4, 5, 6, 7, 8, 9}" by auto
  then show ?thesis
    by (auto simp: digitChar_def isDecimalDigit_def digitValue_def)
qed

lemma decimal_digits: "decimal n \<noteq> [] \<and> (\<forall>c \<in> set (decimal n). isDecimalDigit c)"
proof (induction n rule: decimal.induct)
  case (1 n)
  show ?case
  proof (cases "n < 10")
    case True
    then show ?thesis by (subst (1 2) decimal.simps) (simp add: digitChar_digit)
  next
    case False
    with 1 show ?thesis by (subst (1 2) decimal.simps) (simp add: digitChar_digit)
  qed
qed

lemma mathInt_snoc: "mathInt (xs @ [c]) = 10 * mathInt xs + digitValue c"
  by (simp add: mathInt_def)

lemma mathInt_decimal: "mathInt (decimal n) = int n"
proof (induction n rule: decimal.induct)
  case (1 n)
  show ?case
  proof (cases "n < 10")
    case True
    then show ?thesis by (subst decimal.simps) (simp add: mathInt_def digitChar_digit)
  next
    case False
    with 1 have "mathInt (decimal (n div 10)) = int (n div 10)" by simp
    with False show ?thesis
      by (subst decimal.simps) (simp add: mathInt_snoc digitChar_digit zdiv_int zmod_int)
  qed
qed

lemma parseInt_Number_toString: "0 \<le> n \<Longrightarrow> parseInt (Number_toString n) = Some n"
  using parseInt_digits_prefix[of "decimal (nat n)" "[]"] decimal_digits[of "nat n"]
  by (simp add: Number_toString_def mathInt_decimal)

lemma onRequestGet_ok:
  "onRequestGet raw e = Inr \<lparr>status = 200,
      headers = [(''Access-Control-Allow-Origin'', ''*''),
             (''Access-Control-Allow-Methods'', ''GET, OPTIONS''),
             (''Access-Control-Allow-Headers'', ''Content-Type''),
             (''Content-Type'', ''application/octet-stream''),
             (''Content-Length'', Number_toString (fileSize_of raw)),
             (''Cache-Control'', ''no-store, no-cache, must-revalidate, max-age=0''),
             (''Pragma'', ''no-cache'')],
      body = Some (download_stream_of raw e)\<rparr>"
  by (simp add: onRequestGet_def new_Response_def download_stream_of_def fileSize_of_def Let_def)

text \<open>
  C2. The size validator resolves an absent value, a value that fails integer parsing
  and a value that parses to an integer outside the inclusive bounds to the default
  size, and any other value to the parsed integer; it agrees with the validator as the
  specification words it. The lower and the upper bound resolve to themselves, the
  upper bound plus one resolves to the default, and whatever the value is the handler
  answers with status 200.
\<close>

theorem C2_size_validator:
  "fileSize_of raw = spec_resolvedSize raw \<and>
   (raw = None \<longrightarrow> fileSize_of raw = DEFAULT_FILE_SIZE_BYTES) \<and>
   (\<forall>s. raw = Some s \<and> parseInt s = None \<longrightarrow> fileSize_of raw = DEFAULT_FILE_SIZE_BYTES) \<and>
   (\<forall>s n. raw = Some s \<and> parseInt s = Some n \<and> (n < MIN_FILE_SIZE_BYTES \<or> MAX_FILE_SIZE_BYTES < n)
      \<longrightarrow> fileSize_of raw = DEFAULT_FILE_SIZE_BYTES) \<and>
   (\<forall>s n. raw = Some s \<and> parseInt s = Some n \<and> MIN_FILE_SIZE_BYTES \<le> n \<and> n \<le> MAX_FILE_SIZE_BYTES
      \<longrightarrow> fileSize_of raw = n) \<and>
   fileSize_of (Some (Number_toString MIN_FILE_SIZE_BYTES)) = MIN_FILE_SIZE_BYTES \<and>
   fileSize_of (Some (Number_toString MAX_FILE_SIZE_BYTES)) = MAX_FILE_SIZE_BYTES \<and>
   fileSize_of (Some (Number_toString (MAX_FILE_SIZE_BYTES + 1))) = DEFAULT_FILE_SIZE_BYTES \<and>
   (\<exists>r. onRequestGet raw e = Inr r \<and> status r = 200)"
proof -
  have spec: "fileSize_of raw = spec_resolvedSize raw"
    by (rule fileSize_of_spec)
  have absent: "raw = None \<longrightarrow> fileSize_of raw = DEFAULT_FILE_SIZE_BYTES"
    by (simp add: fileSize_of_spec spec_resolvedSize_def)
  have nan: "\<forall>s. raw = Some s \<and> parseInt s = None \<longrightarrow> fileSize_of raw = DEFAULT_FILE_SIZE_BYTES"
    by (simp add: fileSize_of_spec spec_resolvedSize_def)
  have out: "\<forall>s n. raw = Some s \<and> parseInt s = Some n \<and>
      (n < MIN_FILE_SIZE_BYTES \<or> MAX_FILE_SIZE_BYTES < n) \<longrightarrow> fileSize_of raw = DEFAULT_FILE_SIZE_BYTES"
    by (auto simp: fileSize_of_spec spec_resolvedSize_def)
  have inside: "\<forall>s n. raw = Some s \<and> parseInt s = Some n \<and>
      MIN_FILE_SIZE_BYTES \<le> n \<and> n \<le> MAX_FILE_SIZE_BYTES \<longrightarrow> fileSize_of raw = n"
    by (simp add: fileSize_of_spec spec_resolvedSize_def)
  have lo: "fileSize_of (Some (Number_toString MIN_FILE_SIZE_BYTES)) = MIN_FILE_SIZE_BYTES"
    by (simp add: fileSize_of_spec spec_resolvedSize_def parseInt_Number_toString consts_defs)
  have hi: "fileSize_of (Some (Number_toString MAX_FILE_SIZE_BYTES)) = MAX_FILE_SIZE_BYTES"
    by (simp add: fileSize_of_spec spec_resolvedSize_def parseInt_Number_toString consts_defs)
  have above: "fileSize_of (Some (Number_toString (MAX_FILE_SIZE_BYTES + 1))) = DEFAULT_FILE_SIZE_BYTES"
    by (simp add: fileSize_of_spec spec_resolvedSize_def parseInt_Number_toString consts_defs)
  have served: "\<exists>r. onRequestGet raw e = Inr r \<and> status r = 200"
    by (simp add: onRequestGet_ok)
  from spec absent nan out inside lo hi above served show ?thesis
    by blast
qed

theorem C2_size_validator_witness:
  "parseInt ''2048'' = Some 2048 \<and> MIN_FILE_SIZE_BYTES \<le> 2048 \<and> 2048 \<le> MAX_FILE_SIZE_BYTES \<and>
   fileSize_of (Some ''2048'') = 2048 \<and>
   parseInt ''abc'' = None \<and> fileSize_of (Some ''abc'') = DEFAULT_FILE_SIZE_BYTES \<and>
   parseInt ''512'' = Some 512 \<and> 512 < MIN_FILE_SIZE_BYTES \<and>
   fileSize_of (Some ''512'') = DEFAULT_FILE_SIZE_BYTES \<and>
   fileSize_of (None :: string option) = DEFAULT_FILE_SIZE_BYTES"
proof -
  have p1: "parseInt ''2048'' = Some 2048" by (simp add: parse_defs)
  have r1: "MIN_FILE_SIZE_BYTES \<le> 2048 \<and> 2048 \<le> MAX_FILE_SIZE_BYTES" by (simp add: consts_defs)
  have p2: "parseInt ''abc'' = None" by (simp add: parse_defs)
  have p3: "parseInt ''512'' = Some 512" by (simp add: parse_defs)
  have r3: "512 < MIN_FILE_SIZE_BYTES" by (simp add: consts_defs)
  note inside = C2_size_validator[of "Some ''2048''" "()", THEN conjunct2, THEN conjunct2,
      THEN conjunct2, THEN conjunct2, THEN conjunct1, rule_format, of "''2048''" 2048]
  from inside p1 r1 have c1: "fileSize_of (Some ''2048'') = 2048" by simp
  note nan = C2_size_validator[of "Some ''abc''" "()", THEN conjunct2, THEN conjunct2,
      THEN conjunct1, rule_format, of "''abc''"]
  from nan p2 have c2: "fileSize_of (Some ''abc'') = DEFAULT_FILE_SIZE_BYTES" by simp
  note out = C2_size_validator[of "Some ''512''" "()", THEN conjunct2, THEN conjunct2,
      THEN conjunct2, THEN conjunct1, rule_format, of "''512''" 512]
  from out p3 r3 have c3: "fileSize_of (Some ''512'') = DEFAULT_FILE_SIZE_BYTES" by simp
  note absent = C2_size_validator[of None "()", THEN conjunct2, THEN conjunct1, rule_format]
  from absent have c4: "fileSize_of (None :: string option) = DEFAULT_FILE_SIZE_BYTES" by simp
  from p1 r1 p2 p3 r3 c1 c2 c3 c4 show ?thesis by simp
qed

text \<open>
  C10. A size value made of decimal digits followed by text that does not start with a
  digit resolves to the integer the digits spell when that integer is within the
  bounds, since \<^verbatim>\<open>parseInt\<close> reads the numeric prefix: \<^verbatim>\<open>1048576abc\<close> resolves to
  1048576. A present but empty value resolves to the default size: the empty string is
  falsy, so the block that parses (and that logs a rejected value) is not entered and
  nothing is logged.
\<close>

theorem C10_numeric_prefix_and_empty_value:
  "(ds \<noteq> [] \<and> (\<forall>c \<in> set ds. isDecimalDigit c) \<and> (rest = [] \<or> \<not> isDecimalDigit (hd rest)) \<and>
    MIN_FILE_SIZE_BYTES \<le> mathInt ds \<and> mathInt ds \<le> MAX_FILE_SIZE_BYTES
      \<longrightarrow> fileSize_of (Some (ds @ rest)) = mathInt ds) \<and>
   fileSize_of (Some ''1048576abc'') = 1048576 \<and>
   resolveFileSize (Some '''') = (DEFAULT_FILE_SIZE_BYTES, []) \<and>
   resolveFileSize (Some ''abc'') = (DEFAULT_FILE_SIZE_BYTES, [InvalidSizeParameter ''abc''])"
proof -
  have prefix: "ds \<noteq> [] \<and> (\<forall>c \<in> set ds. isDecimalDigit c) \<and>
      (rest = [] \<or> \<not> isDecimalDigit (hd rest)) \<and>
      MIN_FILE_SIZE_BYTES \<le> mathInt ds \<and> mathInt ds \<le> MAX_FILE_SIZE_BYTES
      \<longrightarrow> fileSize_of (Some (ds @ rest)) = mathInt ds"
    by (simp add: fileSize_of_spec spec_resolvedSize_def parseInt_digits_prefix)
  have example: "fileSize_of (Some ''1048576abc'') = 1048576"
    by (simp add: fileSize_of_def resolveFileSize_def parse_defs consts_defs)
  have empty: "resolveFileSize (Some '''') = (DEFAULT_FILE_SIZE_BYTES, [])"
    by (simp add: resolveFileSize_def)
  have rejected: "resolveFileSize (Some ''abc'') = (DEFAULT_FILE_SIZE_BYTES, [InvalidSizeParameter ''abc''])"
    by (simp add: resolveFileSize_def parse_defs)
  from prefix example empty rejected show ?thesis by blast
qed

theorem C10_numeric_prefix_and_empty_value_witness:
  "(\<forall>c \<in> set ''4096''. isDecimalDigit c) = True \<and> \<not> isDecimalDigit (hd ''kb'') \<and>
   mathInt ''4096'' = 4096 \<and> fileSize_of (Some ''4096kb'') = 4096"
proof -
  have d: "\<forall>c \<in> set ''4096''. isDecimalDigit c" by (simp add: isDecimalDigit_def)
  have n: "\<not> isDecimalDigit (hd ''kb'')" by (simp add: isDecimalDigit_def)
  have m: "mathInt ''4096'' = 4096" by (simp add: mathInt_def digitValue_def)
  have r: "MIN_FILE_SIZE_BYTES \<le> mathInt ''4096'' \<and> mathInt ''4096'' \<le> MAX_FILE_SIZE_BYTES"
    by (simp add: m consts_defs)
  note prefix = C10_numeric_prefix_and_empty_value[of "''4096''" "''kb''", THEN conjunct1]
  from prefix d n r have "fileSize_of (Some (''4096'' @ ''kb'')) = mathInt ''4096''" by simp
  with d n m show ?thesis by simp
qed

section \<open>Facts about one production step\<close>

lemma generateRandomChunk_Inr:
  assumes "generateRandomChunk src n e = Inr (chunk, e')"
  shows "0 \<le> n \<and> n \<le> 65536 \<and> length chunk = nat n \<and>
         (\<exists>f. src e (nat n) = Inr (f, e') \<and> chunk = map f [0..<nat n])"
  using assms
  by (auto simp: generateRandomChunk_def new_Uint8Array_def crypto_getRandomValues_def
      split: if_splits sum.splits prod.splits)

lemma generateRandomChunk_reliable:
  assumes "reliable src" "0 \<le> n" "n \<le> 65536"
  shows "\<exists>chunk e'. generateRandomChunk src n e = Inr (chunk, e')"
proof -
  from assms obtain f e' where "src e (nat n) = Inr (f, e')"
    unfolding reliable_def by (metis nat_le_iff of_nat_numeral)
  with assms(2,3) show ?thesis
    by (simp add: generateRandomChunk_def new_Uint8Array_def crypto_getRandomValues_def)
qed

lemma pull_closes:
  "state st = Streaming \<Longrightarrow> fileSize st \<le> bytesSent st \<Longrightarrow> pull src st = st\<lparr>state := Closed\<rparr>"
  by (simp add: pull_def controller_close_def)

lemma pull_emits:
  assumes "state st = Streaming" "bytesSent st < fileSize st"
    and "generateRandomChunk src (min chunkSize (fileSize st - bytesSent st)) (entropy st) = Inr (chunk, e')"
  shows "pull src st =
     st\<lparr>bytesSent := bytesSent st + min chunkSize (fileSize st - bytesSent st),
        emitted := emitted st @ [chunk], entropy := e'\<rparr>"
  using assms by (simp add: pull_def controller_enqueue_def Let_def)

lemma pull_fails:
  assumes "state st = Streaming" "bytesSent st < fileSize st"
    and "generateRandomChunk src (min chunkSize (fileSize st - bytesSent st)) (entropy st) = Inl err"
  shows "pull src st = st\<lparr>state := Errored err, console := console st @ [ChunkFailure err]\<rparr>"
  using assms by (simp add: pull_def controller_error_def Let_def)

lemma pull_cases:
  assumes "state st = Streaming"
  obtains (closes) "fileSize st \<le> bytesSent st" "pull src st = st\<lparr>state := Closed\<rparr>"
  | (emits) chunk e' where "bytesSent st < fileSize st"
      "generateRandomChunk src (min chunkSize (fileSize st - bytesSent st)) (entropy st) = Inr (chunk, e')"
      "pull src st = st\<lparr>bytesSent := bytesSent st + min chunkSize (fileSize st - bytesSent st),
        emitted := emitted st @ [chunk], entropy := e'\<rparr>"
  | (fails) err where "bytesSent st < fileSize st"
      "generateRandomChunk src (min chunkSize (fileSize st - bytesSent st)) (entropy st) = Inl err"
      "pull src st = st\<lparr>state := Errored err, console := console st @ [ChunkFailure err]\<rparr>"
proof (cases "fileSize st \<le> bytesSent st")
  case True
  then show ?thesis using closes pull_closes[OF assms] by blast
next
  case False
  then have lt: "bytesSent st < fileSize st" by simp
  show ?thesis
  proof (cases "generateRandomChunk src (min chunkSize (fileSize st - bytesSent st)) (entropy st)")
    case (Inl err)
    then show ?thesis using fails lt pull_fails[OF assms lt] by blast
  next
    case (Inr p)
    then obtain chunk e' where "p = (chunk, e')" by (cases p)
    with Inr show ?thesis using emits lt pull_emits[OF assms lt] by blast
  qed
qed

lemma pull_fileSize: "fileSize (pull src st) = fileSize st"
  by (simp add: pull_def controller_close_def controller_enqueue_def controller_error_def Let_def
      split: sum.splits prod.splits)

section \<open>The cursor invariant\<close>

lemma cursor_inv_init: "0 \<le> fs \<Longrightarrow> cursor_inv (new_ReadableStream fs e logged)"
  by (simp add: cursor_inv_def new_ReadableStream_def bytesEmitted_def)

lemma cursor_inv_cancel: "cursor_inv st \<Longrightarrow> cursor_inv (cancel (st\<lparr>state := Cancelled\<rparr>))"
  by (simp add: cursor_inv_def cancel_def bytesEmitted_def)

lemma cursor_inv_pull:
  assumes "cursor_inv st" "state st = Streaming"
  shows "cursor_inv (pull src st)"
  using assms(2)
proof (cases rule: pull_cases[where src = src])
  case closes
  with assms show ?thesis by (simp add: cursor_inv_def bytesEmitted_def)
next
  case (emits chunk e')
  from generateRandomChunk_Inr[OF emits(2)]
  have len: "int (length chunk) = min chunkSize (fileSize st - bytesSent st)" by simp
  from emits(1) have pos: "0 < min chunkSize (fileSize st - bytesSent st)"
    by (simp add: chunkSize_def)
  from assms(1) emits(1) have full: "\<forall>c \<in> set (emitted st). int (length c) = chunkSize"
    by (simp add: cursor_inv_def)
  show ?thesis
    using assms(1) emits(1) len pos full unfolding emits(3)
    by (auto simp: cursor_inv_def bytesEmitted_def)
next
  case (fails err)
  with assms show ?thesis by (simp add: cursor_inv_def bytesEmitted_def)
qed

lemma cursor_inv_step: "stream_step src st st' \<Longrightarrow> cursor_inv st \<Longrightarrow> cursor_inv st'"
  by (induction rule: stream_step.induct) (auto intro: cursor_inv_pull cursor_inv_cancel)

lemma cursor_inv_steps: "(stream_step src)\<^sup>*\<^sup>* st st' \<Longrightarrow> cursor_inv st \<Longrightarrow> cursor_inv st'"
  by (induction rule: rtranclp_induct) (auto intro: cursor_inv_step)

lemma fileSize_step: "stream_step src st st' \<Longrightarrow> fileSize st' = fileSize st"
  by (induction rule: stream_step.induct) (auto simp: pull_fileSize cancel_def)

lemma fileSize_steps: "(stream_step src)\<^sup>*\<^sup>* st st' \<Longrightarrow> fileSize st' = fileSize st"
  by (induction rule: rtranclp_induct) (auto simp: fileSize_step)

lemma download_stream_of_simps:
  "fileSize (download_stream_of raw e) = fileSize_of raw"
  "bytesSent (download_stream_of raw e) = 0"
  "state (download_stream_of raw e) = Streaming"
  "emitted (download_stream_of raw e) = []"
  "entropy (download_stream_of raw e) = e"
  by (simp_all add: download_stream_of_def new_ReadableStream_def)

lemma cursor_inv_download_stream: "cursor_inv (download_stream_of raw e)"
  unfolding download_stream_of_def
  using fileSize_of_bounds[of raw]
  by (intro cursor_inv_init) (simp add: MIN_FILE_SIZE_BYTES_def)

lemma cursor_inv_reachable:
  "(stream_step src)\<^sup>*\<^sup>* (download_stream_of raw e) st \<Longrightarrow> cursor_inv st"
  by (rule cursor_inv_steps[OF _ cursor_inv_download_stream])

lemma fileSize_reachable:
  "(stream_step src)\<^sup>*\<^sup>* (download_stream_of raw e) st \<Longrightarrow> fileSize st = fileSize_of raw"
  by (simp add: fileSize_steps download_stream_of_simps)

section \<open>Reading the stream to its end\<close>

lemma reliable_counting_source: "reliable counting_source"
  by (simp add: reliable_def counting_source_def)

lemma pull_reliable_emits:
  assumes "reliable src" "state st = Streaming" "bytesSent st < fileSize st"
  shows "\<exists>chunk e'. int (length chunk) = min chunkSize (fileSize st - bytesSent st) \<and>
     pull src st = st\<lparr>bytesSent := bytesSent st + min chunkSize (fileSize st - bytesSent st),
        emitted := emitted st @ [chunk], entropy := e'\<rparr>"
proof -
  let ?n = "min chunkSize (fileSize st - bytesSent st)"
  from assms(3) have "0 \<le> ?n" "?n \<le> 65536" by (simp_all add: chunkSize_def)
  from generateRandomChunk_reliable[OF assms(1) this, of "entropy st"]
  obtain chunk e' where g: "generateRandomChunk src ?n (entropy st) = Inr (chunk, e')" by blast
  from generateRandomChunk_Inr[OF g] \<open>0 \<le> ?n\<close> have "int (length chunk) = ?n" by simp
  with pull_emits[OF assms(2,3) g] show ?thesis by blast
qed

lemma pull_iterate:
  assumes "reliable src" "state st0 = Streaming" "bytesSent st0 = 0" "emitted st0 = []"
    and "0 \<le> fileSize st0"
    and "k = 0 \<or> (int k - 1) * chunkSize < fileSize st0"
  shows "state ((pull src ^^ k) st0) = Streaming \<and>
         fileSize ((pull src ^^ k) st0) = fileSize st0 \<and>
         bytesSent ((pull src ^^ k) st0) = min (int k * chunkSize) (fileSize st0) \<and>
         length (emitted ((pull src ^^ k) st0)) = k"
  using assms(6)
proof (induction k)
  case 0
  from assms(2-5) show ?case
    by (simp add: chunkSize_def)
next
  case (Suc k)
  from Suc.prems have lt: "int k * chunkSize < fileSize st0" by simp
  then have "k = 0 \<or> (int k - 1) * chunkSize < fileSize st0"
    by (auto simp: chunkSize_def algebra_simps)
  from Suc.IH[OF this] have ih: "state ((pull src ^^ k) st0) = Streaming"
      "fileSize ((pull src ^^ k) st0) = fileSize st0"
      "bytesSent ((pull src ^^ k) st0) = int k * chunkSize"
      "length (emitted ((pull src ^^ k) st0)) = k"
    using lt by simp_all
  from ih(2,3) lt have "bytesSent ((pull src ^^ k) st0) < fileSize ((pull src ^^ k) st0)" by simp
  from pull_reliable_emits[OF assms(1) ih(1) this]
  obtain chunk e' where
    p: "pull src ((pull src ^^ k) st0) = ((pull src ^^ k) st0)
         \<lparr>bytesSent := bytesSent ((pull src ^^ k) st0) +
              min chunkSize (fileSize ((pull src ^^ k) st0) - bytesSent ((pull src ^^ k) st0)),
          emitted := emitted ((pull src ^^ k) st0) @ [chunk], entropy := e'\<rparr>"
    by blast
  show ?case
    unfolding funpow.simps o_apply p using ih lt
    by (simp add: algebra_simps min_def)
qed


lemma ceil_chunks:
  assumes "0 \<le> fs"
  shows "0 \<le> \<lceil>real_of_int fs / real_of_int chunkSize\<rceil> \<and>
         fs \<le> \<lceil>real_of_int fs / real_of_int chunkSize\<rceil> * chunkSize \<and>
         (\<lceil>real_of_int fs / real_of_int chunkSize\<rceil> - 1) * chunkSize < fs + (if fs = 0 then 1 else 0)"
proof -
  define m where "m = \<lceil>real_of_int fs / real_of_int chunkSize\<rceil>"
  have m: "m = - (- fs div 65536)"
    unfolding m_def chunkSize_def using ceiling_divide_eq_div[of fs 65536] by simp
  define r where "r = - fs mod 65536"
  have r: "0 \<le> r" "r < 65536" by (simp_all add: r_def)
  have "- fs = (- fs div 65536) * 65536 + r" by (simp add: r_def)
  with m have eq: "fs = m * 65536 - r" by linarith
  from eq r assms have "0 \<le> m \<and> fs \<le> m * 65536 \<and> (m - 1) * 65536 < fs + (if fs = 0 then 1 else 0)"
    by (auto simp: algebra_simps)
  then show ?thesis unfolding m_def[symmetric] by (simp add: chunkSize_def)
qed

lemma drain_stop: "state st \<noteq> Streaming \<Longrightarrow> drain src st = st"
  by (subst drain.simps) simp

lemma drain_next: "state st = Streaming \<Longrightarrow> drain src st = drain src (pull src st)"
  by (subst drain.simps) simp

lemma drain_unroll:
  "(\<forall>j<k. state ((pull src ^^ j) st) = Streaming) \<Longrightarrow> drain src st = drain src ((pull src ^^ k) st)"
proof (induction k)
  case 0
  show ?case by simp
next
  case (Suc k)
  then have "drain src st = drain src ((pull src ^^ k) st)" by simp
  also from Suc.prems have "state ((pull src ^^ k) st) = Streaming" by simp
  then have "drain src ((pull src ^^ k) st) = drain src ((pull src ^^ Suc k) st)"
    by (simp add: drain_next)
  finally show ?case .
qed

lemma drain_reachable: "(stream_step src)\<^sup>*\<^sup>* st (drain src st)"
proof (induction src st rule: drain.induct)
  case (1 src st)
  show ?case
  proof (cases "state st = Streaming")
    case True
    with 1 have "(stream_step src)\<^sup>*\<^sup>* (pull src st) (drain src st)"
      by (simp add: drain_next)
    with step_pull[OF True, of src] show ?thesis
      by (rule converse_rtranclp_into_rtranclp)
  next
    case False
    then show ?thesis by (simp add: drain_stop)
  qed
qed

lemma drain_not_streaming: "state (drain src st) \<noteq> Streaming"
proof (induction src st rule: drain.induct)
  case (1 src st)
  show ?case
  proof (cases "state st = Streaming")
    case True
    with 1 show ?thesis by (simp add: drain_next)
  next
    case False
    then show ?thesis by (simp add: drain_stop)
  qed
qed

lemma production_run:
  assumes "reliable src" "state st0 = Streaming" "bytesSent st0 = 0" "emitted st0 = []"
    and "0 \<le> fileSize st0"
    and n: "n = nat \<lceil>real_of_int (fileSize st0) / real_of_int chunkSize\<rceil>"
  shows "(\<forall>k\<le>n. state ((pull src ^^ k) st0) = Streaming \<and> length (emitted ((pull src ^^ k) st0)) = k) \<and>
         bytesSent ((pull src ^^ n) st0) = fileSize st0 \<and>
         (pull src ^^ Suc n) st0 = ((pull src ^^ n) st0)\<lparr>state := Closed\<rparr> \<and>
         drain src st0 = (pull src ^^ Suc n) st0"
proof -
  from ceil_chunks[OF assms(5)] n
  have up: "fileSize st0 \<le> int n * chunkSize"
    and low: "n = 0 \<or> (int n - 1) * chunkSize < fileSize st0"
    by (simp_all split: if_splits)
  have upto: "state ((pull src ^^ k) st0) = Streaming \<and>
         fileSize ((pull src ^^ k) st0) = fileSize st0 \<and>
         bytesSent ((pull src ^^ k) st0) = min (int k * chunkSize) (fileSize st0) \<and>
         length (emitted ((pull src ^^ k) st0)) = k" if "k \<le> n" for k
  proof -
    have "k = 0 \<or> (int k - 1) * chunkSize < fileSize st0"
    proof (cases "k = 0")
      case False
      with that low have "(int n - 1) * chunkSize < fileSize st0" "int k \<le> int n" by auto
      then have "(int k - 1) * chunkSize \<le> (int n - 1) * chunkSize"
        by (simp add: chunkSize_def)
      with \<open>(int n - 1) * chunkSize < fileSize st0\<close> show ?thesis by linarith
    qed simp
    from pull_iterate[OF assms(1-5) this] show ?thesis .
  qed
  from upto[of n] up have last: "state ((pull src ^^ n) st0) = Streaming"
      "fileSize ((pull src ^^ n) st0) = fileSize st0"
      "bytesSent ((pull src ^^ n) st0) = fileSize st0"
    by simp_all
  then have closes: "(pull src ^^ Suc n) st0 = ((pull src ^^ n) st0)\<lparr>state := Closed\<rparr>"
    by (simp add: pull_closes)
  have "drain src st0 = drain src ((pull src ^^ Suc n) st0)"
    using upto by (intro drain_unroll) (simp add: less_Suc_eq_le)
  also have "\<dots> = (pull src ^^ Suc n) st0"
    by (rule drain_stop) (simp only: closes, simp)
  finally have "drain src st0 = (pull src ^^ Suc n) st0" .
  with upto last closes show ?thesis by simp
qed

section \<open>The stream cursor, failures and chunk sizes\<close>

text \<open>
  C3. The cursor invariant holds at every state the stream reaches, before and after
  every call of \<^verbatim>\<open>pull\<close>: \<open>bytesSent\<close> starts at 0 and stays between 0 and the
  resolved size; a call of \<^verbatim>\<open>pull\<close> either enqueues one chunk and adds exactly its
  length to \<open>bytesSent\<close>, or enqueues nothing and leaves \<open>bytesSent\<close> as it was; and
  the call closes the stream exactly when \<open>bytesSent\<close> equals the resolved size.
\<close>

theorem C3_cursor_invariant:
  assumes "(stream_step src)\<^sup>*\<^sup>* (download_stream_of raw e) st"
  shows "bytesSent (download_stream_of raw e) = 0 \<and>
         fileSize st = fileSize_of raw \<and>
         0 \<le> bytesSent st \<and> bytesSent st \<le> fileSize st \<and>
         (state st = Closed \<longrightarrow> bytesSent st = fileSize st) \<and>
         (state st = Streaming \<longrightarrow>
            0 \<le> bytesSent (pull src st) \<and> bytesSent (pull src st) \<le> fileSize (pull src st) \<and>
            ((\<exists>chunk. emitted (pull src st) = emitted st @ [chunk] \<and>
                 bytesSent (pull src st) = bytesSent st + int (length chunk)) \<or>
             (emitted (pull src st) = emitted st \<and> bytesSent (pull src st) = bytesSent st)) \<and>
            (state (pull src st) = Closed) = (bytesSent st = fileSize st))"
proof -
  from assms have inv: "cursor_inv st" by (rule cursor_inv_reachable)
  from assms have fs: "fileSize st = fileSize_of raw" by (rule fileSize_reachable)
  have step: "0 \<le> bytesSent (pull src st) \<and> bytesSent (pull src st) \<le> fileSize (pull src st) \<and>
            ((\<exists>chunk. emitted (pull src st) = emitted st @ [chunk] \<and>
                 bytesSent (pull src st) = bytesSent st + int (length chunk)) \<or>
             (emitted (pull src st) = emitted st \<and> bytesSent (pull src st) = bytesSent st)) \<and>
            (state (pull src st) = Closed) = (bytesSent st = fileSize st)"
    if s: "state st = Streaming"
  proof -
    from inv s have inv': "cursor_inv (pull src st)" by (rule cursor_inv_pull)
    then have range: "0 \<le> bytesSent (pull src st) \<and> bytesSent (pull src st) \<le> fileSize (pull src st)"
      by (simp add: cursor_inv_def)
    from s have rest: "((\<exists>chunk. emitted (pull src st) = emitted st @ [chunk] \<and>
                 bytesSent (pull src st) = bytesSent st + int (length chunk)) \<or>
             (emitted (pull src st) = emitted st \<and> bytesSent (pull src st) = bytesSent st)) \<and>
            (state (pull src st) = Closed) = (bytesSent st = fileSize st)"
    proof (cases rule: pull_cases[where src = src])
      case closes
      with inv show ?thesis by (simp add: cursor_inv_def)
    next
      case (emits chunk e')
      from generateRandomChunk_Inr[OF emits(2)]
      have "int (length chunk) = min chunkSize (fileSize st - bytesSent st)" by simp
      with emits(1) s show ?thesis unfolding emits(3) by simp
    next
      case (fails err)
      then show ?thesis by simp
    qed
    from range rest show ?thesis by simp
  qed
  from inv have "0 \<le> bytesSent st \<and> bytesSent st \<le> fileSize st \<and>
         (state st = Closed \<longrightarrow> bytesSent st = fileSize st)"
    by (simp add: cursor_inv_def)
  with fs step show ?thesis by (simp add: download_stream_of_simps)
qed


theorem C3_cursor_invariant_witness:
  "(stream_step counting_source)\<^sup>*\<^sup>* (download_stream_of (Some ''2048'') 0)
      (pull counting_source (download_stream_of (Some ''2048'') 0)) \<and>
   state (pull counting_source (download_stream_of (Some ''2048'') 0)) = Streaming \<and>
   bytesSent (pull counting_source (download_stream_of (Some ''2048'') 0)) = 2048 \<and>
   fileSize (pull counting_source (download_stream_of (Some ''2048'') 0)) = 2048 \<and>
   state (pull counting_source (pull counting_source (download_stream_of (Some ''2048'') 0))) = Closed"
proof -
  let ?st0 = "download_stream_of (Some ''2048'') (0::nat)"
  let ?st1 = "pull counting_source ?st0"
  have fs: "fileSize_of (Some ''2048'') = 2048"
    by (simp add: fileSize_of_def resolveFileSize_def parse_defs consts_defs)
  have s0: "state ?st0 = Streaming" "bytesSent ?st0 < fileSize ?st0"
    by (simp_all add: download_stream_of_simps fs)
  from pull_reliable_emits[OF reliable_counting_source s0]
  have st1: "state ?st1 = Streaming" "bytesSent ?st1 = 2048"
    by (auto simp: download_stream_of_simps fs chunkSize_def)
  from step_pull[OF s0(1), of counting_source]
  have reach: "(stream_step counting_source)\<^sup>*\<^sup>* ?st0 ?st1" by (rule r_into_rtranclp)
  note c3 = C3_cursor_invariant[OF reach]
  from c3 have f1: "fileSize ?st1 = 2048" by (simp add: fs)
  from c3 st1 f1 have "state (pull counting_source ?st1) = Closed" by simp
  with reach st1 f1 show ?thesis by simp
qed

text \<open>
  C4. When chunk generation fails during a production step, \<^verbatim>\<open>pull\<close> signals the error
  to the controller: the stream becomes errored with that error, \<open>bytesSent\<close> is not
  incremented, nothing is enqueued, the stream is not closed, and no further step
  follows. No stream ever reaches the closed state having emitted fewer bytes than the
  resolved size.
\<close>

theorem C4_generation_failure:
  assumes "(stream_step src)\<^sup>*\<^sup>* (download_stream_of raw e) st"
    and "state st = Streaming" and "bytesSent st < fileSize st"
    and "generateRandomChunk src (min chunkSize (fileSize st - bytesSent st)) (entropy st) = Inl err"
  shows "state (pull src st) = Errored err \<and>
         bytesSent (pull src st) = bytesSent st \<and>
         emitted (pull src st) = emitted st \<and>
         state (pull src st) \<noteq> Closed \<and>
         (\<forall>st'. \<not> stream_step src (pull src st) st') \<and>
         (\<forall>st'. (stream_step src)\<^sup>*\<^sup>* (download_stream_of raw e) st' \<and> state st' = Closed
            \<longrightarrow> bytesEmitted st' = fileSize_of raw)"
proof -
  from pull_fails[OF assms(2-4)]
  have p: "pull src st = st\<lparr>state := Errored err, console := console st @ [ChunkFailure err]\<rparr>" .
  have terminal: "\<forall>st'. \<not> stream_step src (pull src st) st'"
    unfolding p by (auto elim: stream_step.cases)
  have closed: "\<forall>st'. (stream_step src)\<^sup>*\<^sup>* (download_stream_of raw e) st' \<and> state st' = Closed
            \<longrightarrow> bytesEmitted st' = fileSize_of raw"
    using cursor_inv_reachable fileSize_reachable by (fastforce simp: cursor_inv_def)
  from terminal closed show ?thesis unfolding p by simp
qed

theorem C4_generation_failure_witness:
  "(stream_step failing_source)\<^sup>*\<^sup>* (download_stream_of (Some ''2048'') ())
      (download_stream_of (Some ''2048'') ()) \<and>
   state (download_stream_of (Some ''2048'') ()) = Streaming \<and>
   bytesSent (download_stream_of (Some ''2048'') ()) < fileSize (download_stream_of (Some ''2048'') ()) \<and>
   generateRandomChunk failing_source 2048 () = Inl (SourceError ''unavailable'') \<and>
   state (pull failing_source (download_stream_of (Some ''2048'') ())) = Errored (SourceError ''unavailable'') \<and>
   bytesSent (pull failing_source (download_stream_of (Some ''2048'') ())) = 0 \<and>
   emitted (pull failing_source (download_stream_of (Some ''2048'') ())) = []"
proof -
  let ?st0 = "download_stream_of (Some ''2048'') ()"
  have fs: "fileSize_of (Some ''2048'') = 2048"
    by (simp add: fileSize_of_def resolveFileSize_def parse_defs consts_defs)
  have reach: "(stream_step failing_source)\<^sup>*\<^sup>* ?st0 ?st0" by simp
  have s0: "state ?st0 = Streaming" "bytesSent ?st0 < fileSize ?st0"
    by (simp_all add: download_stream_of_simps fs)
  have g: "generateRandomChunk failing_source 2048 () = Inl (SourceError ''unavailable'')"
    by (simp add: generateRandomChunk_def new_Uint8Array_def crypto_getRandomValues_def
        failing_source_def)
  then have g': "generateRandomChunk failing_source (min chunkSize (fileSize ?st0 - bytesSent ?st0))
      (entropy ?st0) = Inl (SourceError ''unavailable'')"
    by (simp add: download_stream_of_simps fs chunkSize_def)
  from C4_generation_failure[OF reach s0 g']
  have "state (pull failing_source ?st0) = Errored (SourceError ''unavailable'') \<and>
        bytesSent (pull failing_source ?st0) = 0 \<and> emitted (pull failing_source ?st0) = []"
    by (simp add: download_stream_of_simps)
  with reach s0 g show ?thesis by simp
qed

text \<open>
  C5. A call of \<^verbatim>\<open>pull\<close> that enqueues a chunk enqueues one of length
  \<open>min chunkSize (fileSize - bytesSent)\<close>, computed from the state before the call. So
  every chunk a stream has emitted has at most \<open>chunkSize\<close> = 65536 bytes, every chunk
  but the last emitted has exactly that many, and once a shorter chunk has been
  emitted all bytes have been sent, so that no chunk follows it.
\<close>

theorem C5_chunk_lengths:
  assumes "(stream_step src)\<^sup>*\<^sup>* (download_stream_of raw e) st"
  shows "chunkSize = 65536 \<and>
         (\<forall>c \<in> set (emitted st). int (length c) \<le> chunkSize) \<and>
         (\<forall>c \<in> set (butlast (emitted st)). int (length c) = chunkSize) \<and>
         (emitted st \<noteq> [] \<and> int (length (last (emitted st))) < chunkSize
            \<longrightarrow> bytesSent st = fileSize st) \<and>
         (state st = Streaming \<longrightarrow>
            (\<forall>chunk. emitted (pull src st) = emitted st @ [chunk]
               \<longrightarrow> int (length chunk) = min chunkSize (fileSize st - bytesSent st)))"
proof -
  from assms have inv: "cursor_inv st" by (rule cursor_inv_reachable)
  have short: "emitted st \<noteq> [] \<and> int (length (last (emitted st))) < chunkSize
            \<longrightarrow> bytesSent st = fileSize st"
  proof (intro impI, elim conjE)
    assume ne: "emitted st \<noteq> []" and lt: "int (length (last (emitted st))) < chunkSize"
    show "bytesSent st = fileSize st"
    proof (rule ccontr)
      assume "bytesSent st \<noteq> fileSize st"
      with inv have "bytesSent st < fileSize st" by (simp add: cursor_inv_def)
      with inv have "\<forall>c \<in> set (emitted st). int (length c) = chunkSize" by (simp add: cursor_inv_def)
      with ne have "int (length (last (emitted st))) = chunkSize" by simp
      with lt show False by simp
    qed
  qed
  have step: "\<forall>chunk. emitted (pull src st) = emitted st @ [chunk]
               \<longrightarrow> int (length chunk) = min chunkSize (fileSize st - bytesSent st)"
    if s: "state st = Streaming"
    using s
  proof (cases rule: pull_cases[where src = src])
    case closes
    then show ?thesis by simp
  next
    case (emits chunk e')
    from generateRandomChunk_Inr[OF emits(2)]
    have "int (length chunk) = min chunkSize (fileSize st - bytesSent st)" by simp
    then show ?thesis unfolding emits(3) by simp
  next
    case (fails err)
    then show ?thesis by simp
  qed
  from inv have "(\<forall>c \<in> set (emitted st). int (length c) \<le> chunkSize) \<and>
         (\<forall>c \<in> set (butlast (emitted st)). int (length c) = chunkSize)"
    by (simp add: cursor_inv_def)
  with short step show ?thesis by (simp add: chunkSize_def)
qed

theorem C5_chunk_lengths_witness:
  "(stream_step counting_source)\<^sup>*\<^sup>* (download_stream_of (Some ''70000'') 0)
      (pull counting_source (download_stream_of (Some ''70000'') 0)) \<and>
   state (pull counting_source (download_stream_of (Some ''70000'') 0)) = Streaming \<and>
   map length (emitted (pull counting_source (pull counting_source
      (download_stream_of (Some ''70000'') 0)))) = [65536, 4464]"
proof -
  let ?st0 = "download_stream_of (Some ''70000'') (0::nat)"
  let ?st1 = "pull counting_source ?st0"
  let ?st2 = "pull counting_source ?st1"
  have fs: "fileSize_of (Some ''70000'') = 70000"
    by (simp add: fileSize_of_def resolveFileSize_def parse_defs consts_defs)
  have s0: "state ?st0 = Streaming" "bytesSent ?st0 < fileSize ?st0"
    by (simp_all add: download_stream_of_simps fs)
  from pull_reliable_emits[OF reliable_counting_source s0]
  obtain c1 where st1: "state ?st1 = Streaming" "bytesSent ?st1 = 65536" "fileSize ?st1 = 70000"
      "emitted ?st1 = [c1]"
    by (auto simp: download_stream_of_simps fs chunkSize_def)
  from step_pull[OF s0(1), of counting_source]
  have reach0: "(stream_step counting_source)\<^sup>*\<^sup>* ?st0 ?st0" and
       reach1: "(stream_step counting_source)\<^sup>*\<^sup>* ?st0 ?st1" by auto
  from st1 have lt1: "bytesSent ?st1 < fileSize ?st1" by simp
  from pull_reliable_emits[OF reliable_counting_source st1(1) lt1]
  obtain c2 where st2: "emitted ?st2 = [c1, c2]"
    by (auto simp: st1)
  note step0 = C5_chunk_lengths[OF reach0, THEN conjunct2, THEN conjunct2, THEN conjunct2,
      THEN conjunct2, rule_format, OF s0(1), of c1]
  note step1 = C5_chunk_lengths[OF reach1, THEN conjunct2, THEN conjunct2, THEN conjunct2,
      THEN conjunct2, rule_format, OF st1(1), of c2]
  from step0 st1 have l1: "length c1 = 65536"
    by (simp add: download_stream_of_simps fs chunkSize_def)
  from step1 st1 st2 have l2: "length c2 = 4464"
    by (simp add: chunkSize_def)
  from reach1 st1 st2 l1 l2 show ?thesis by simp
qed

text \<open>
  C7. With a random source that does not fail and a consumer that does not cancel, the
  production is finite: with \<open>n = \<lceil>fileSize / chunkSize\<rceil>\<close>, each of the first \<open>n\<close>
  calls of \<^verbatim>\<open>pull\<close> enqueues one chunk and leaves the stream readable, the call after
  them enqueues nothing and closes the stream, and reading the stream to its end stops
  there, with exactly \<open>n\<close> chunks emitted.
\<close>

theorem C7_finite_production:
  assumes "reliable src"
    and "n = nat \<lceil>real_of_int (fileSize_of raw) / real_of_int chunkSize\<rceil>"
  shows "(\<forall>k\<le>n. state ((pull src ^^ k) (download_stream_of raw e)) = Streaming \<and>
                length (emitted ((pull src ^^ k) (download_stream_of raw e))) = k) \<and>
         state ((pull src ^^ Suc n) (download_stream_of raw e)) = Closed \<and>
         emitted ((pull src ^^ Suc n) (download_stream_of raw e)) =
           emitted ((pull src ^^ n) (download_stream_of raw e)) \<and>
         drain src (download_stream_of raw e) = (pull src ^^ Suc n) (download_stream_of raw e) \<and>
         state (drain src (download_stream_of raw e)) = Closed \<and>
         length (emitted (drain src (download_stream_of raw e))) = n"
proof -
  let ?st0 = "download_stream_of raw e"
  have nonneg: "0 \<le> fileSize ?st0"
    using fileSize_of_bounds[of raw] by (simp add: download_stream_of_simps MIN_FILE_SIZE_BYTES_def)
  from assms(2) have n: "n = nat \<lceil>real_of_int (fileSize ?st0) / real_of_int chunkSize\<rceil>"
    by (simp add: download_stream_of_simps)
  from production_run[OF assms(1) _ _ _ nonneg n]
  have run: "(\<forall>k\<le>n. state ((pull src ^^ k) ?st0) = Streaming \<and> length (emitted ((pull src ^^ k) ?st0)) = k)"
      "(pull src ^^ Suc n) ?st0 = ((pull src ^^ n) ?st0)\<lparr>state := Closed\<rparr>"
      "drain src ?st0 = (pull src ^^ Suc n) ?st0"
    by (simp_all add: download_stream_of_simps)
  from run(1) have len: "length (emitted ((pull src ^^ n) ?st0)) = n" by simp
  have closed: "state ((pull src ^^ Suc n) ?st0) = Closed"
    by (simp only: run(2), simp)
  have same: "emitted ((pull src ^^ Suc n) ?st0) = emitted ((pull src ^^ n) ?st0)"
    by (simp only: run(2), simp)
  have d1: "state (drain src ?st0) = Closed" by (simp only: run(3) closed)
  have d2: "length (emitted (drain src ?st0)) = n" by (simp only: run(3) same len)
  from run(1) closed same run(3) d1 d2 show ?thesis by - (intro conjI, assumption+)
qed


theorem C7_finite_production_witness:
  "reliable counting_source \<and>
   nat \<lceil>real_of_int (fileSize_of (Some ''70000'')) / real_of_int chunkSize\<rceil> = 2 \<and>
   state ((pull counting_source ^^ 2) (download_stream_of (Some ''70000'') 0)) = Streaming \<and>
   state ((pull counting_source ^^ 3) (download_stream_of (Some ''70000'') 0)) = Closed \<and>
   drain counting_source (download_stream_of (Some ''70000'') 0) =
     (pull counting_source ^^ 3) (download_stream_of (Some ''70000'') 0) \<and>
   length (emitted (drain counting_source (download_stream_of (Some ''70000'') 0))) = 2"
proof -
  have fs: "fileSize_of (Some ''70000'') = 70000"
    by (simp add: fileSize_of_def resolveFileSize_def parse_defs consts_defs)
  have n: "nat \<lceil>real_of_int (fileSize_of (Some ''70000'')) / real_of_int chunkSize\<rceil> = 2"
    by (simp add: fs chunkSize_def)
  note c7 = C7_finite_production[OF reliable_counting_source n[symmetric], of 0]
  from c7 have "state ((pull counting_source ^^ 2) (download_stream_of (Some ''70000'') 0)) = Streaming"
    by simp
  moreover from c7 have "state ((pull counting_source ^^ 3) (download_stream_of (Some ''70000'') 0)) = Closed"
    by (simp add: eval_nat_numeral)
  moreover from c7 have "drain counting_source (download_stream_of (Some ''70000'') 0) =
     (pull counting_source ^^ 3) (download_stream_of (Some ''70000'') 0)"
    by (simp add: eval_nat_numeral)
  moreover from c7 have "length (emitted (drain counting_source (download_stream_of (Some ''70000'') 0))) = 2"
    by simp
  ultimately show ?thesis using reliable_counting_source n by simp
qed

section \<open>Declared length and bytes streamed\<close>

lemma pull_closes_iff:
  assumes "cursor_inv st" "state st = Streaming"
  shows "(state (pull src st) = Closed) = (bytesSent st = fileSize st)"
  using assms(2)
proof (cases rule: pull_cases[where src = src])
  case closes
  with assms(1) show ?thesis by (simp add: cursor_inv_def)
next
  case (emits chunk e')
  with assms(2) show ?thesis by simp
next
  case (fails err)
  then show ?thesis by simp
qed


lemma drain_closes:
  assumes "reliable src"
  shows "state (drain src (download_stream_of raw e)) = Closed"
proof -
  let ?st0 = "download_stream_of raw e"
  have "0 \<le> fileSize ?st0"
    using fileSize_of_bounds[of raw] by (simp add: download_stream_of_simps MIN_FILE_SIZE_BYTES_def)
  from production_run[OF assms _ _ _ this refl]
  have "drain src ?st0 =
      (pull src ^^ Suc (nat \<lceil>real_of_int (fileSize ?st0) / real_of_int chunkSize\<rceil>)) ?st0"
    and "(pull src ^^ Suc (nat \<lceil>real_of_int (fileSize ?st0) / real_of_int chunkSize\<rceil>)) ?st0 =
      ((pull src ^^ nat \<lceil>real_of_int (fileSize ?st0) / real_of_int chunkSize\<rceil>) ?st0)\<lparr>state := Closed\<rparr>"
    by (simp_all add: download_stream_of_simps)
  then show ?thesis by (simp only:, simp)
qed

lemma drain_bytesEmitted:
  assumes "reliable src"
  shows "bytesEmitted (drain src (download_stream_of raw e)) = fileSize_of raw"
proof -
  have "cursor_inv (drain src (download_stream_of raw e))"
    by (rule cursor_inv_reachable[OF drain_reachable])
  with drain_closes[OF assms, of raw e] fileSize_reachable[OF drain_reachable, of src raw e]
  show ?thesis by (simp add: cursor_inv_def)
qed

lemma reachable_bytesEmitted:
  assumes "(stream_step src)\<^sup>*\<^sup>* (download_stream_of raw e) st"
  shows "bytesEmitted st \<le> fileSize_of raw \<and>
         (state st = Closed \<longrightarrow> bytesEmitted st = fileSize_of raw) \<and>
         (state st = Streaming \<longrightarrow>
            (state (pull src st) = Closed) = (bytesEmitted st = fileSize_of raw))"
proof -
  from assms have inv: "cursor_inv st" by (rule cursor_inv_reachable)
  from assms have fs: "fileSize st = fileSize_of raw" by (rule fileSize_reachable)
  from inv have e: "bytesEmitted st = bytesSent st" by (simp add: cursor_inv_def)
  from inv fs e pull_closes_iff[OF inv, of src] show ?thesis
    by (simp add: cursor_inv_def)
qed

text \<open>
  C1. For a request whose size parameter parses to an integer \<open>n\<close> within the bounds,
  the resolved size is \<open>n\<close>, the response carries \<open>n\<close> in decimal as its
  \<^verbatim>\<open>Content-Length\<close>, and (with a random source that does not fail and a consumer that
  reads to the end) the stream ends closed with the lengths of all chunks enqueued
  adding up to \<open>n\<close>. At every state the stream reaches, the bytes enqueued so far are
  at most \<open>n\<close>, a closed stream has enqueued exactly \<open>n\<close>, and a call of \<^verbatim>\<open>pull\<close>
  closes the stream exactly when \<open>n\<close> bytes have been enqueued.
\<close>

theorem C1_content_length_matches_body:
  assumes "parseInt s = Some n" and "MIN_FILE_SIZE_BYTES \<le> n" and "n \<le> MAX_FILE_SIZE_BYTES"
    and "reliable src"
  shows "fileSize_of (Some s) = n \<and>
         (\<exists>r. onRequestGet (Some s) e = Inr r \<and> status r = 200 \<and>
              map_of (headers r) ''Content-Length'' = Some (Number_toString n) \<and>
              body r = Some (download_stream_of (Some s) e)) \<and>
         parseInt (Number_toString n) = Some n \<and>
         state (drain src (download_stream_of (Some s) e)) = Closed \<and>
         bytesEmitted (drain src (download_stream_of (Some s) e)) = n \<and>
         (\<forall>st. (stream_step src)\<^sup>*\<^sup>* (download_stream_of (Some s) e) st \<longrightarrow>
            bytesEmitted st \<le> n \<and>
            (state st = Closed \<longrightarrow> bytesEmitted st = n) \<and>
            (state st = Streaming \<longrightarrow> (state (pull src st) = Closed) = (bytesEmitted st = n)))"
proof -
  from assms(1-3) have fs: "fileSize_of (Some s) = n"
    by (simp add: fileSize_of_spec spec_resolvedSize_def)
  have response: "\<exists>r. onRequestGet (Some s) e = Inr r \<and> status r = 200 \<and>
              map_of (headers r) ''Content-Length'' = Some (Number_toString n) \<and>
              body r = Some (download_stream_of (Some s) e)"
    unfolding onRequestGet_ok fs by simp
  from assms(2) have "0 \<le> n" by (simp add: MIN_FILE_SIZE_BYTES_def)
  then have roundtrip: "parseInt (Number_toString n) = Some n"
    by (rule parseInt_Number_toString)
  have closed: "state (drain src (download_stream_of (Some s) e)) = Closed"
    using assms(4) by (rule drain_closes)
  have total: "bytesEmitted (drain src (download_stream_of (Some s) e)) = n"
    using drain_bytesEmitted[OF assms(4), of "Some s" e] by (simp only: fs)
  have reached: "\<forall>st. (stream_step src)\<^sup>*\<^sup>* (download_stream_of (Some s) e) st \<longrightarrow>
            bytesEmitted st \<le> n \<and>
            (state st = Closed \<longrightarrow> bytesEmitted st = n) \<and>
            (state st = Streaming \<longrightarrow> (state (pull src st) = Closed) = (bytesEmitted st = n))"
    using reachable_bytesEmitted[of src "Some s" e] by (simp only: fs) blast
  from fs response roundtrip closed total reached show ?thesis
    by - (intro conjI, assumption+)
qed

theorem C1_content_length_matches_body_witness:
  "parseInt ''70000'' = Some 70000 \<and> MIN_FILE_SIZE_BYTES \<le> 70000 \<and> 70000 \<le> MAX_FILE_SIZE_BYTES \<and>
   reliable counting_source \<and>
   Number_toString 70000 = ''70000'' \<and>
   state (drain counting_source (download_stream_of (Some ''70000'') 0)) = Closed \<and>
   bytesEmitted (drain counting_source (download_stream_of (Some ''70000'') 0)) = 70000"
proof -
  have p: "parseInt ''70000'' = Some 70000" by (simp add: parse_defs)
  have lo: "MIN_FILE_SIZE_BYTES \<le> 70000" and hi: "70000 \<le> MAX_FILE_SIZE_BYTES"
    by (simp_all add: consts_defs)
  have t: "Number_toString 70000 = ''70000''"
    by (simp add: Number_toString_def decimal.simps digitChar_def)
  note c1 = C1_content_length_matches_body[OF p lo hi reliable_counting_source, of 0]
  from c1 have "state (drain counting_source (download_stream_of (Some ''70000'') 0)) = Closed"
    and "bytesEmitted (drain counting_source (download_stream_of (Some ''70000'') 0)) = 70000"
    by simp_all
  with p lo hi t reliable_counting_source show ?thesis by simp
qed

section \<open>Cancellation\<close>

text \<open>
  On the platform no step follows a cancellation: that is the rule written into
  \<open>stream_step\<close>, and it holds whatever the callbacks are.
\<close>

lemma no_step_after_cancel: "\<not> stream_step src (platform_cancel st) st'"
  by (auto simp: platform_cancel_def cancel_def elim: stream_step.cases)














section \<open>The earlier copies\<close>

lemma fill_loop_part_002_fills:
  assumes "0 \<le> i" "i \<le> n"
  shows "fill_loop_part_002 i n (replicate (nat i) 97 @ replicate (nat (n - i)) 0) =
         replicate (nat n) 97"
  using assms
proof (induction i n "replicate (nat i) (97 :: byte) @ replicate (nat (n - i)) 0"
    rule: fill_loop_part_002.induct)
  case (1 i n)
  show ?case
  proof (cases "i < n")
    case True
    have upd: "(replicate (nat i) (97 :: byte) @ replicate (nat (n - i)) 0)[nat i := 97] =
               replicate (nat (i + 1)) 97 @ replicate (nat (n - (i + 1))) 0"
    proof -
      from True 1(2) have "nat (n - i) = Suc (nat (n - (i + 1)))" by simp
      moreover from 1(2) have "nat (i + 1) = Suc (nat i)" by simp
      ultimately show ?thesis
        by (simp add: list_update_append replicate_append_same)
    qed
    from True 1 upd show ?thesis
      by (subst fill_loop_part_002.simps) simp
  next
    case False
    with 1(3) have "i = n" by simp
    then show ?thesis by (subst fill_loop_part_002.simps) simp
  qed
qed

lemma fill_loop_part_002_all:
  "0 \<le> n \<Longrightarrow> fill_loop_part_002 0 n (replicate (nat n) 0) = replicate (nat n) 97"
  using fill_loop_part_002_fills[of 0 n] by simp

lemma pull_part_002_emits:
  assumes "state st = Streaming" "bytesSent st < fileSize st"
  shows "pull_part_002 st =
     st\<lparr>bytesSent := bytesSent st + min chunkSize (fileSize st - bytesSent st),
        emitted := emitted st @ [replicate (nat (min chunkSize (fileSize st - bytesSent st))) 97]\<rparr>"
proof -
  from assms(2) have "0 \<le> min chunkSize (fileSize st - bytesSent st)"
    by (simp add: chunkSize_def)
  with assms show ?thesis
    by (simp add: pull_part_002_def new_Uint8Array_def controller_enqueue_def Let_def
        fill_loop_part_002_all)
qed

text \<open>
  The chunk the current \<^verbatim>\<open>pull\<close> enqueues is the buffer as the random source filled
  it.
\<close>

lemma pull_chunk_from_random_source:
  assumes "state st = Streaming"
    and "emitted (pull src st) = emitted st @ [chunk]"
  shows "\<exists>f e'. src (entropy st) (length chunk) = Inr (f, e') \<and>
           chunk = map f [0..<length chunk] \<and> entropy (pull src st) = e'"
  using assms(1)
proof (cases rule: pull_cases[where src = src])
  case closes
  with assms(2) show ?thesis by simp
next
  case (emits c e')
  from assms(2) have c: "c = chunk" unfolding emits(3) by simp
  from generateRandomChunk_Inr[OF emits(2)] c show ?thesis
    unfolding emits(3) by auto
next
  case (fails err)
  with assms(2) show ?thesis by simp
qed

lemma onRequestOptions_ok:
  "onRequestOptions =
     Inr \<lparr>status = 204,
          headers =
            [(''Access-Control-Allow-Origin'', ''*''),
             (''Access-Control-Allow-Methods'', ''GET, POST, OPTIONS''),
             (''Access-Control-Allow-Headers'', ''Content-Type, Range'')],
          body = None\<rparr>"
  by (simp add: onRequestOptions_def new_Response_def)

text \<open>
  C6. The copy of the download function with the fixed file size does not use the
  random source: the first chunk its stream emits is 65536 bytes of the value 97, the
  letter a, and every chunk it enqueues consists of that byte only.
\<close>

theorem C6_part_002_constant_chunks:
  "onRequestGet_part_002 =
      Inr \<lparr>status = 200,
           headers =
             [(''Access-Control-Allow-Origin'', ''*''),
              (''Access-Control-Allow-Methods'', ''GET, OPTIONS''),
              (''Access-Control-Allow-Headers'', ''Content-Type''),
              (''Content-Type'', ''application/octet-stream''),
              (''Content-Length'', Number_toString 10485760),
              (''Cache-Control'', ''no-store, no-cache, must-revalidate, max-age=0''),
              (''Pragma'', ''no-cache'')],
           body = Some (new_ReadableStream 10485760 () [])\<rparr> \<and>
   emitted (pull_part_002 (new_ReadableStream 10485760 () [])) = [replicate 65536 97] \<and>
   emitted (pull_part_002 (pull_part_002 (new_ReadableStream 10485760 () []))) =
     [replicate 65536 97, replicate 65536 97]"
proof -
  let ?st0 = "new_ReadableStream 10485760 () []"
  have r: "onRequestGet_part_002 =
      Inr \<lparr>status = 200,
           headers =
             [(''Access-Control-Allow-Origin'', ''*''),
              (''Access-Control-Allow-Methods'', ''GET, OPTIONS''),
              (''Access-Control-Allow-Headers'', ''Content-Type''),
              (''Content-Type'', ''application/octet-stream''),
              (''Content-Length'', Number_toString 10485760),
              (''Cache-Control'', ''no-store, no-cache, must-revalidate, max-age=0''),
              (''Pragma'', ''no-cache'')],
           body = Some ?st0\<rparr>"
    by (simp add: onRequestGet_part_002_def new_Response_def Let_def)
  have s0: "state ?st0 = Streaming" "bytesSent ?st0 < fileSize ?st0"
    by (simp_all add: new_ReadableStream_def)
  have p1: "pull_part_002 ?st0 = ?st0\<lparr>bytesSent := 65536, emitted := [replicate 65536 97]\<rparr>"
    unfolding pull_part_002_emits[OF s0]
    by (simp add: new_ReadableStream_def chunkSize_def)
  have f1: "state (pull_part_002 ?st0) = Streaming" "bytesSent (pull_part_002 ?st0) = 65536"
      "fileSize (pull_part_002 ?st0) = 10485760"
      "emitted (pull_part_002 ?st0) = [replicate 65536 97]"
    unfolding p1 by (simp_all add: new_ReadableStream_def)
  then have s1: "state (pull_part_002 ?st0) = Streaming"
      "bytesSent (pull_part_002 ?st0) < fileSize (pull_part_002 ?st0)"
    by simp_all
  have p2: "emitted (pull_part_002 (pull_part_002 ?st0)) = [replicate 65536 97, replicate 65536 97]"
    unfolding pull_part_002_emits[OF s1]
    by (simp add: f1 chunkSize_def)
  from r f1(4) p2 show ?thesis by - (intro conjI, assumption+)
qed

text \<open>
  C9. The \<^verbatim>\<open>onRequestOptions\<close> of the earlier copies passes no status to
  \<^verbatim>\<open>new Response\<close>, so its response has the default status 200, not 204; the body is
  empty and the two CORS headers are present.
\<close>

theorem C9_part_002_options_status:
  "(\<exists>r. (onRequestOptions_part_002 :: jserror + unit response) = Inr r \<and>
       status r = 200 \<and> body r = None \<and>
       map_of (headers r) ''Access-Control-Allow-Methods'' = Some ''GET, POST, OPTIONS'' \<and>
       map_of (headers r) ''Access-Control-Allow-Headers'' = Some ''Content-Type'')"
  by (simp add: onRequestOptions_part_002_def new_Response_def)

end
